theory Spec2Isabelle
  imports Main
begin

section \<open>TinyBlue: a menu navigator for a character display\<close>

text \<open>
  A shallow embedding of \<^verbatim>\<open>src/tinyblue.py\<close>. Python integers are \<open>int\<close>, strings are
  \<open>string\<close>, every \<^verbatim>\<open>raise\<close> and every failing built-in operation (indexing out of
  range, modulo by zero) is a value of the type \<open>error\<close>.
\<close>

subsection \<open>Python built-ins used by the module\<close>

datatype error = TypeError | ZeroDivisionError | IndexError

text \<open>\<^verbatim>\<open>xs[k]\<close>: a negative index counts from the end, anything outside raises.\<close>

definition py_index :: "'a list \<Rightarrow> int \<Rightarrow> error + 'a" where
  "py_index xs k =
     (let n = int (length xs) in
      if 0 \<le> k \<and> k < n then Inr (xs ! nat k)
      else if - n \<le> k \<and> k < 0 then Inr (xs ! nat (n + k))
      else Inl IndexError)"

text \<open>\<^verbatim>\<open>s[0:k]\<close>: a negative stop counts from the end and is clipped at the start.\<close>

definition py_slice_to :: "'a list \<Rightarrow> int \<Rightarrow> 'a list" where
  "py_slice_to s k =
     (if 0 \<le> k then take (nat k) s else take (nat (int (length s) + k)) s)"

text \<open>\<^verbatim>\<open>' ' * k\<close>: no characters when \<open>k\<close> is not positive.\<close>

definition spaces :: "int \<Rightarrow> string" where
  "spaces k = replicate (nat k) CHR '' ''"

text \<open>\<^verbatim>\<open>a % b\<close> on integers: floor modulo, a zero divisor raises.\<close>

definition py_mod :: "int \<Rightarrow> int \<Rightarrow> error + int" where
  "py_mod a b = (if b = 0 then Inl ZeroDivisionError else Inr (a mod b))"

subsection \<open>Item\<close>

text \<open>
  The field \<open>on_click\<close> holds a callable or something that is not one (\<^verbatim>\<open>None\<close> by
  default). A callable is a handle, interpreted by an environment when it is invoked;
  \<open>None\<close> stands for every value on which \<^verbatim>\<open>callable\<close> is false.
\<close>

type_synonym handler = nat

record Item =
  text_of :: string
  on_click :: "handler option"
  update :: bool
  is_back_button :: bool

definition Item_init :: "string \<Rightarrow> handler option \<Rightarrow> bool \<Rightarrow> Item" where
  "Item_init t oc b = \<lparr>text_of = t, on_click = oc, update = False, is_back_button = b\<rparr>"

definition set_text :: "string \<Rightarrow> Item \<Rightarrow> Item" where
  "set_text t self = self\<lparr>text_of := t, update := False\<rparr>"

definition get_visible_text :: "int \<Rightarrow> Item \<Rightarrow> string" where
  "get_visible_text num_chars self =
     (let t = py_slice_to (text_of self) num_chars
      in t @ spaces (num_chars - int (length t)))"

subsection \<open>Screen\<close>

text \<open>
  The constructor takes any Python value. What it inspects is whether the value is a
  list and whether each element is an \<open>Item\<close>; \<open>OtherV\<close> is any value that is neither.
\<close>

datatype pyval = ItemV (the_Item: Item) | ListV "pyval list" | OtherV

fun isinstance_Item :: "pyval \<Rightarrow> bool" where
  "isinstance_Item (ItemV _) = True"
| "isinstance_Item _ = False"

record Screen =
  items :: "Item list"
  top_line :: int
  line_index :: int

fun Screen_init :: "pyval \<Rightarrow> error + Screen" where
  "Screen_init (ListV xs) =
     (if \<not> list_all isinstance_Item xs then Inl TypeError
      else Inr \<lparr>items = map the_Item xs, top_line = 0, line_index = 0\<rparr>)"
| "Screen_init _ = Inl TypeError"

text \<open>
  \<open>scroll\<close> assigns \<open>line_index\<close> first; the modulo is the only operation that can
  raise, and it raises before anything is assigned.
\<close>

definition Screen_scroll :: "int \<Rightarrow> int \<Rightarrow> Screen \<Rightarrow> error + Screen" where
  "Screen_scroll direction num_lines self =
     (let n = int (length (items self)) in
      case py_mod (line_index self + n + direction) n of
        Inl e \<Rightarrow> Inl e
      | Inr li \<Rightarrow>
          (let self1 = self\<lparr>line_index := li\<rparr> in
           if line_index self1 \<ge> top_line self1 + num_lines
           then Inr (self1\<lparr>top_line := line_index self1 - num_lines + 1\<rparr>)
           else if line_index self1 < top_line self1
           then Inr (self1\<lparr>top_line := line_index self1\<rparr>)
           else Inr self1))"

text \<open>A sequence of \<open>scroll\<close> calls on one screen, stopping at the first that raises.\<close>

fun scrolls :: "int list \<Rightarrow> int \<Rightarrow> Screen \<Rightarrow> error + Screen" where
  "scrolls [] num_lines self = Inr self"
| "scrolls (d # ds) num_lines self =
     (case Screen_scroll d num_lines self of
        Inl e \<Rightarrow> Inl e
      | Inr self' \<Rightarrow> scrolls ds num_lines self')"

definition get_selected_item :: "Screen \<Rightarrow> error + Item" where
  "get_selected_item self = py_index (items self) (line_index self)"

definition reset :: "Screen \<Rightarrow> Screen" where
  "reset self = self\<lparr>top_line := 0, line_index := 0\<rparr>"

text \<open>
  \<open>render\<close>: the body of the loop for the row \<open>i\<close>, then the loop over
  \<^verbatim>\<open>range(num_lines)\<close> appending to the list \<open>a\<close>. The screen is only read.
\<close>

definition render_row :: "int \<Rightarrow> Screen \<Rightarrow> int \<Rightarrow> error + string" where
  "render_row num_columns self i =
     (if top_line self + i < int (length (items self)) then
        (case py_index (items self) (top_line self + i) of
           Inl e \<Rightarrow> Inl e
         | Inr item \<Rightarrow>
             (let cursor =
                (if top_line self + i = line_index self then
                   (if on_click item \<noteq> None then CHR ''=''
                    else if is_back_button item then CHR ''<''
                    else CHR ''>'')
                 else CHR '' '')
              in Inr (cursor # get_visible_text (num_columns - 1) item)))
      else Inr (spaces num_columns))"

fun render_loop :: "int \<Rightarrow> Screen \<Rightarrow> int list \<Rightarrow> string list \<Rightarrow> error + string list" where
  "render_loop num_columns self [] a = Inr a"
| "render_loop num_columns self (i # rest) a =
     (case render_row num_columns self i of
        Inl e \<Rightarrow> Inl e
      | Inr item_text \<Rightarrow> render_loop num_columns self rest (a @ [item_text]))"

definition Screen_render :: "int \<Rightarrow> int \<Rightarrow> Screen \<Rightarrow> error + string list" where
  "Screen_render num_lines num_columns self =
     render_loop num_columns self [0 .. num_lines - 1] []"

subsection \<open>TinyBlue\<close>

text \<open>
  Screens are objects shared by reference between the registry, the stack and the
  caller: the store \<open>heap\<close> maps each reference to the state of its screen, and the
  registry and the stack hold references. The display driver is an external object; the
  field \<open>lcd\<close> is the sequence of calls made on it so far.

  A method that raises may already have changed the state, and the change stays: an
  outcome carries the state in both cases.
\<close>

type_synonym ref = nat

datatype lcd_op =
    Clear
  | CustomChar int "int list"
  | MoveTo int int
  | PutChar char
  | PutStr string

record TinyBlue =
  lcd :: "lcd_op list"
  num_lines :: int
  num_columns :: int
  screens :: "string \<rightharpoonup> ref"
  screen_stack :: "ref list"
  screen_root_path :: string
  auto_render :: bool
  heap :: "ref \<Rightarrow> Screen"

datatype 'a outcome = Returns 'a | Raises error 'a

fun state_of :: "'a outcome \<Rightarrow> 'a" where
  "state_of (Returns s) = s"
| "state_of (Raises e s) = s"

definition TinyBlue_init :: "lcd_op list \<Rightarrow> int \<Rightarrow> int \<Rightarrow> (ref \<Rightarrow> Screen) \<Rightarrow> TinyBlue" where
  "TinyBlue_init l nl nc h =
     \<lparr>lcd = l @ [Clear,
                 CustomChar 0 [0x00, 0x08, 0x04, 0x02, 0x04, 0x08, 0x00, 0x00],
                 CustomChar 1 [0x00, 0x08, 0x04, 0x1E, 0x04, 0x08, 0x00, 0x00],
                 CustomChar 2 [0x00, 0x04, 0x08, 0x1E, 0x08, 0x04, 0x00, 0x00]],
      num_lines = nl, num_columns = nc,
      screens = Map.empty, screen_stack = [], screen_root_path = ''/'',
      auto_render = True, heap = h\<rparr>"

definition add_screen :: "string \<Rightarrow> ref \<Rightarrow> TinyBlue \<Rightarrow> TinyBlue" where
  "add_screen path screen self =
     (let self1 = self\<lparr>screens := (screens self)(path \<mapsto> screen)\<rparr> in
      if path = screen_root_path self1 then self1\<lparr>screen_stack := [screen]\<rparr>
      else self1)"

definition top_screen :: "TinyBlue \<Rightarrow> error + ref" where
  "top_screen self =
     (if length (screen_stack self) = 0 then Inl TypeError
      else Inr (screen_stack self ! (length (screen_stack self) - 1)))"

text \<open>
  The loop of \<open>render\<close> over the rows: \<^verbatim>\<open>line[0]\<close> raises on an empty row, after
  \<^verbatim>\<open>move_to\<close> has been called for it.
\<close>

fun render_lines :: "int \<Rightarrow> string list \<Rightarrow> TinyBlue \<Rightarrow> TinyBlue outcome" where
  "render_lines y [] self = Returns self"
| "render_lines y (line # rest) self =
     (let self1 = self\<lparr>lcd := lcd self @ [MoveTo 0 y]\<rparr> in
      case line of
        [] \<Rightarrow> Raises IndexError self1
      | c # cs \<Rightarrow>
          (let glyph =
             (if c = CHR ''>'' then CHR 0x00
              else if c = CHR ''='' then CHR 0x01
              else if c = CHR ''<'' then CHR 0x02
              else CHR '' '')
           in render_lines (y + 1) rest
                (self1\<lparr>lcd := lcd self1 @ [PutChar glyph, PutStr cs]\<rparr>)))"

definition render :: "TinyBlue \<Rightarrow> TinyBlue outcome" where
  "render self =
     (case top_screen self of
        Inl e \<Rightarrow> Raises e self
      | Inr r \<Rightarrow>
          (case Screen_render (num_lines self) (num_columns self) (heap self r) of
             Inl e \<Rightarrow> Raises e self
           | Inr lines \<Rightarrow> render_lines 0 lines self))"

definition open_screen :: "string \<Rightarrow> TinyBlue \<Rightarrow> TinyBlue outcome" where
  "open_screen path self =
     (case screens self path of
        None \<Rightarrow> Returns self
      | Some r \<Rightarrow>
          (let self1 = self\<lparr>screen_stack := screen_stack self @ [r]\<rparr> in
           if auto_render self1 then render self1 else Returns self1))"

definition scroll :: "int \<Rightarrow> TinyBlue \<Rightarrow> TinyBlue outcome" where
  "scroll direction self =
     (case top_screen self of
        Inl e \<Rightarrow> Raises e self
      | Inr r \<Rightarrow>
          (case Screen_scroll direction (num_lines self) (heap self r) of
             Inl e \<Rightarrow> Raises e self
           | Inr s \<Rightarrow>
               (let self1 = self\<lparr>heap := (heap self)(r := s)\<rparr> in
                if auto_render self1 then render self1 else Returns self1)))"

definition TinyBlue_back :: "TinyBlue \<Rightarrow> TinyBlue outcome" where
  "TinyBlue_back self =
     (if length (screen_stack self) > 1 then
        (case top_screen self of
           Inl e \<Rightarrow> Raises e self
         | Inr r \<Rightarrow>
             (let self1 = self\<lparr>heap := (heap self)(r := reset (heap self r))\<rparr>;
                  self2 = self1\<lparr>screen_stack := butlast (screen_stack self1)\<rparr>
              in if auto_render self2 then render self2 else Returns self2))
      else Returns self)"

text \<open>
  \<open>TinyBlue_back\<close> is the method \<open>back\<close>, and \<open>text_of\<close> the field \<open>text\<close> (both
  names are Isar keywords).

  \<open>select\<close> calls \<open>item.on_click()\<close>: the environment \<open>env\<close> says what the callable
  behind each handle does to the state (it may open a screen, change a text, raise).
\<close>

definition select :: "(handler \<Rightarrow> TinyBlue \<Rightarrow> TinyBlue outcome) \<Rightarrow> TinyBlue \<Rightarrow> TinyBlue outcome" where
  "select env self =
     (case top_screen self of
        Inl e \<Rightarrow> Raises e self
      | Inr r \<Rightarrow>
          (case get_selected_item (heap self r) of
             Inl e \<Rightarrow> Raises e self
           | Inr item \<Rightarrow>
               if is_back_button item then TinyBlue_back self
               else (case on_click item of
                       Some h \<Rightarrow>
                         (case env h self of
                            Raises e self1 \<Rightarrow> Raises e self1
                          | Returns self1 \<Rightarrow>
                              if auto_render self1 then render self1 else Returns self1)
                     | None \<Rightarrow> Returns self)))"

subsection \<open>The screens of the example program\<close>

text \<open>
  The three screens built by \<^verbatim>\<open>example_tinyblue.py\<close>, with the texts the sensor items
  have at some moment, and its callables: handle 1 opens \<^verbatim>\<open>/led\<close>, handle 2 opens
  \<^verbatim>\<open>/about\<close>, handle 0 toggles the LED (a pin outside this model) and rewrites the text
  of the first item of the LED screen, taken here at a moment where the LED goes on.
\<close>

definition led_screen :: Screen where
  "led_screen =
     \<lparr>items = [Item_init ''Back / LED: ON'' None True, Item_init ''Toggle'' (Some 0) False],
      top_line = 0, line_index = 0\<rparr>"

definition about_screen :: Screen where
  "about_screen =
     \<lparr>items = [Item_init ''Back'' None True, Item_init ''GitHub/Saranomy'' None False,
               Item_init ''Tiny1602Menu'' None False],
      top_line = 0, line_index = 0\<rparr>"

definition main_screen :: Screen where
  "main_screen =
     \<lparr>items = [Item_init ''LED'' (Some 1) False, Item_init ''Temp 24.51C'' None False,
               Item_init ''Free 180KB'' None False, Item_init ''About'' (Some 2) False],
      top_line = 0, line_index = 0\<rparr>"

definition example_heap :: "ref \<Rightarrow> Screen" where
  "example_heap =
     (\<lambda>_. \<lparr>items = [], top_line = 0, line_index = 0\<rparr>)
       (0 := main_screen, 1 := led_screen, 2 := about_screen)"

definition example_tb :: TinyBlue where
  "example_tb =
     add_screen ''/'' 0 (add_screen ''/about'' 2 (add_screen ''/led'' 1
       (TinyBlue_init [] 2 16 example_heap)))"

definition example_env :: "handler \<Rightarrow> TinyBlue \<Rightarrow> TinyBlue outcome" where
  "example_env h self =
     (if h = 1 then open_screen ''/led'' self
      else if h = 2 then open_screen ''/about'' self
      else if h = 0 then
        Returns (self\<lparr>heap := (heap self)
          (1 := (heap self 1)\<lparr>items := (items (heap self 1))
             [0 := set_text ''Back / LED ON'' (items (heap self 1) ! 0)]\<rparr>)\<rparr>)
      else Returns self)"

text \<open>
  States of the example navigator used below: with \<^verbatim>\<open>/about\<close> opened on the root; with
  \<^verbatim>\<open>/led\<close> opened and its second item selected; a navigator whose root is the about
  screen; and a screen whose only item is both a back button and clickable.
\<close>

definition nested_tb :: TinyBlue where
  "nested_tb = example_tb\<lparr>screen_stack := [0, 2]\<rparr>"

definition led_tb :: TinyBlue where
  "led_tb = example_tb\<lparr>screen_stack := [0, 1],
                         heap := (heap example_tb)(1 := led_screen\<lparr>line_index := 1\<rparr>)\<rparr>"

definition about_tb :: TinyBlue where
  "about_tb = add_screen ''/'' 2 (TinyBlue_init [] 2 16 example_heap)"

definition back_action_screen :: Screen where
  "back_action_screen =
     \<lparr>items = [Item_init ''Back'' (Some 0) True], top_line = 0, line_index = 0\<rparr>"


section \<open>Properties of a screen\<close>

lemmas example_defs =
  example_tb_def example_heap_def add_screen_def
  TinyBlue_init_def about_screen_def led_screen_def main_screen_def Item_init_def

subsection \<open>Scrolling\<close>

lemma Screen_scroll_nonempty:
  assumes "items s \<noteq> []"
  shows "\<exists>s'. Screen_scroll d n s = Inr s' \<and> items s' = items s
          \<and> line_index s' = (line_index s + int (length (items s)) + d) mod int (length (items s))"
  using assms by (simp add: Screen_scroll_def py_mod_def Let_def)

lemma Screen_scroll_window:
  assumes "Screen_scroll d n s = Inr s'" and "1 \<le> n"
  shows "top_line s' \<le> line_index s' \<and> line_index s' < top_line s' + n"
  using assms
  by (auto simp: Screen_scroll_def py_mod_def Let_def split: if_splits)

lemma scrolls_window:
  assumes "items s \<noteq> []" and "1 \<le> n"
    and "top_line s \<le> line_index s \<and> line_index s < top_line s + n"
  shows "\<exists>s'. scrolls ds n s = Inr s' \<and> items s' = items s
           \<and> top_line s' \<le> line_index s' \<and> line_index s' < top_line s' + n"
  using assms
proof (induction ds arbitrary: s)
  case Nil
  then show ?case by simp
next
  case (Cons d ds)
  from Screen_scroll_nonempty [OF Cons.prems(1), of d n]
  obtain s1 where s1: "Screen_scroll d n s = Inr s1" "items s1 = items s" by blast
  have w: "top_line s1 \<le> line_index s1 \<and> line_index s1 < top_line s1 + n"
    using Screen_scroll_window [OF s1(1) Cons.prems(2)] .
  have ne: "items s1 \<noteq> []" using s1(2) Cons.prems(1) by simp
  from Cons.IH [OF ne Cons.prems(2) w] s1 show ?case by simp
qed

text \<open>
  Claim C1. On a screen with at least one item and a viewport of at least one row,
  started at \<open>line_index = 0\<close>, \<open>top_line = 0\<close>, every sequence of \<open>scroll\<close> calls with
  directions \<open>+1\<close> and \<open>-1\<close> returns, and leaves the selected line inside the window:
  \<open>top_line \<le> line_index < top_line + num_lines\<close>.
\<close>

theorem scroll_keeps_selection_visible:
  assumes "its \<noteq> []" and "1 \<le> viewport_rows" and "set ds \<subseteq> {1, -1}"
  shows "\<exists>s'. scrolls ds viewport_rows \<lparr>items = its, top_line = 0, line_index = 0\<rparr> = Inr s'
           \<and> top_line s' \<le> line_index s' \<and> line_index s' < top_line s' + viewport_rows"
proof -
  let ?s = "\<lparr>items = its, top_line = 0, line_index = 0\<rparr>"
  have "items ?s \<noteq> []" using assms(1) by simp
  moreover have "top_line ?s \<le> line_index ?s \<and> line_index ?s < top_line ?s + viewport_rows"
    using assms(2) by simp
  ultimately show ?thesis
    using scrolls_window [of ?s viewport_rows ds] assms(2) by blast
qed

theorem scroll_keeps_selection_visible_witness:
  "items main_screen \<noteq> [] \<and> (1::int) \<le> 2 \<and> set [1, 1, -1, -1, -1] \<subseteq> {1, -1 :: int}
   \<and> (\<exists>s'. scrolls [1, 1, -1, -1, -1] 2
              \<lparr>items = items main_screen, top_line = 0, line_index = 0\<rparr> = Inr s'
          \<and> top_line s' \<le> line_index s' \<and> line_index s' < top_line s' + 2)"
proof -
  have h1: "items main_screen \<noteq> []" by (simp add: main_screen_def)
  have h2: "(1::int) \<le> 2" by simp
  have h3: "set [1, 1, -1, -1, -1] \<subseteq> {1, -1 :: int}" by simp
  show ?thesis
    using h1 h2 h3 scroll_keeps_selection_visible [OF h1 h2 h3] by blast
qed

lemma mod_plus_len: "(a + n + d) mod n = (a + d) mod (n::int)"
proof -
  have "a + n + d = (a + d) + n" by simp
  then show ?thesis by (simp only: mod_add_self2)
qed

lemma scrolls_down_index:
  assumes "items s \<noteq> []" and "0 \<le> line_index s" and "line_index s < int (length (items s))"
  shows "\<exists>s'. scrolls (replicate k 1) n s = Inr s' \<and> items s' = items s
           \<and> line_index s' = (line_index s + int k) mod int (length (items s))"
  using assms
proof (induction k arbitrary: s)
  case 0
  then show ?case by simp
next
  case (Suc k)
  let ?N = "int (length (items s))"
  from Screen_scroll_nonempty [OF Suc.prems(1), of 1 n]
  obtain s1 where s1: "Screen_scroll 1 n s = Inr s1" "items s1 = items s"
    "line_index s1 = (line_index s + ?N + 1) mod ?N" by blast
  have ne: "items s1 \<noteq> []" using s1(2) Suc.prems(1) by simp
  have pos: "0 < ?N" using Suc.prems(1) by simp
  have lo: "0 \<le> line_index s1" using s1(3) pos by simp
  have hi: "line_index s1 < int (length (items s1))" using s1(2,3) pos by simp
  from Suc.IH [OF ne lo hi] obtain s' where s': "scrolls (replicate k 1) n s1 = Inr s'"
    "items s' = items s1" "line_index s' = (line_index s1 + int k) mod int (length (items s1))"
    by blast
  have "line_index s' = ((line_index s + 1) mod ?N + int k) mod ?N"
    using s'(3) s1(2,3) by (simp only: mod_plus_len)
  also have "\<dots> = (line_index s + 1 + int k) mod ?N"
    by (simp only: mod_add_left_eq)
  also have "\<dots> = (line_index s + int (Suc k)) mod ?N"
    by (simp add: add.assoc)
  finally show ?case using s1 s' by simp
qed

text \<open>
  Claim C7. On a screen with \<open>N \<ge> 1\<close> items and a selected index inside the list,
  the selection wraps at both ends. One call of \<open>scroll\<close> with direction \<open>+1\<close> returns
  and moves \<open>line_index\<close> from the last item \<open>N - 1\<close> to 0, and from any other item to
  the next one; one call with direction \<open>-1\<close> returns and moves it from 0 to \<open>N - 1\<close>,
  and from any other item to the one before. So \<open>k\<close> calls with direction \<open>+1\<close> leave
  \<open>line_index\<close> at \<open>(line_index + k) mod N\<close>, and \<open>N\<close> of them bring it back to where
  it was.
\<close>

theorem scroll_wraps_at_both_ends:
  assumes "items s \<noteq> []" and "0 \<le> line_index s" and "line_index s < int (length (items s))"
  shows "(\<exists>s'. scrolls (replicate (length (items s)) 1) n s = Inr s'
              \<and> line_index s' = line_index s)
       \<and> (line_index s = 0 \<longrightarrow>
            (\<exists>s'. Screen_scroll (-1) n s = Inr s' \<and> line_index s' = int (length (items s)) - 1))
       \<and> (line_index s = int (length (items s)) - 1 \<longrightarrow>
            (\<exists>s'. Screen_scroll 1 n s = Inr s' \<and> line_index s' = 0))
       \<and> (line_index s < int (length (items s)) - 1 \<longrightarrow>
            (\<exists>s'. Screen_scroll 1 n s = Inr s' \<and> line_index s' = line_index s + 1))
       \<and> (0 < line_index s \<longrightarrow>
            (\<exists>s'. Screen_scroll (-1) n s = Inr s' \<and> line_index s' = line_index s - 1))
       \<and> (\<forall>k. \<exists>s'. scrolls (replicate k 1) n s = Inr s'
              \<and> line_index s' = (line_index s + int k) mod int (length (items s)))"
proof -
  let ?N = "int (length (items s))"
  have pos: "0 < ?N" using assms(1) by simp
  from Screen_scroll_nonempty [OF assms(1), of 1 n]
  obtain d1 where d1: "Screen_scroll 1 n s = Inr d1"
    "line_index d1 = (line_index s + ?N + 1) mod ?N" by blast
  from Screen_scroll_nonempty [OF assms(1), of "-1" n]
  obtain u1 where u1: "Screen_scroll (-1) n s = Inr u1"
    "line_index u1 = (line_index s + ?N + (-1)) mod ?N" by blast
  have down: "line_index d1 = (line_index s + 1) mod ?N"
    using d1(2) by (simp only: mod_plus_len)
  have up: "line_index u1 = (line_index s - 1) mod ?N"
    using u1(2) mod_plus_len [of "line_index s" ?N "-1"] by simp
  have c1: "\<exists>s'. scrolls (replicate (length (items s)) 1) n s = Inr s'
              \<and> line_index s' = line_index s"
  proof -
    from scrolls_down_index [OF assms, of "length (items s)" n]
    obtain s' where s': "scrolls (replicate (length (items s)) 1) n s = Inr s'"
      "line_index s' = (line_index s + ?N) mod ?N"
      by blast
    have "line_index s' = line_index s" using s'(2) assms(2,3) by simp
    then show ?thesis using s'(1) by blast
  qed
  have c2: "line_index s = 0 \<longrightarrow>
            (\<exists>s'. Screen_scroll (-1) n s = Inr s' \<and> line_index s' = ?N - 1)"
  proof
    assume "line_index s = 0"
    then have "line_index u1 = ?N - 1" using up pos by (simp add: zmod_minus1)
    then show "\<exists>s'. Screen_scroll (-1) n s = Inr s' \<and> line_index s' = ?N - 1"
      using u1(1) by blast
  qed
  have c3: "line_index s = ?N - 1 \<longrightarrow>
            (\<exists>s'. Screen_scroll 1 n s = Inr s' \<and> line_index s' = 0)"
  proof
    assume "line_index s = ?N - 1"
    then have "line_index d1 = 0" using down by simp
    then show "\<exists>s'. Screen_scroll 1 n s = Inr s' \<and> line_index s' = 0"
      using d1(1) by blast
  qed
  have c4: "line_index s < ?N - 1 \<longrightarrow>
            (\<exists>s'. Screen_scroll 1 n s = Inr s' \<and> line_index s' = line_index s + 1)"
  proof
    assume "line_index s < ?N - 1"
    then have "line_index d1 = line_index s + 1" using down assms(2) by simp
    then show "\<exists>s'. Screen_scroll 1 n s = Inr s' \<and> line_index s' = line_index s + 1"
      using d1(1) by blast
  qed
  have c5: "0 < line_index s \<longrightarrow>
            (\<exists>s'. Screen_scroll (-1) n s = Inr s' \<and> line_index s' = line_index s - 1)"
  proof
    assume "0 < line_index s"
    then have "line_index u1 = line_index s - 1" using up assms(3) by simp
    then show "\<exists>s'. Screen_scroll (-1) n s = Inr s' \<and> line_index s' = line_index s - 1"
      using u1(1) by blast
  qed
  have c6: "\<forall>k. \<exists>s'. scrolls (replicate k 1) n s = Inr s'
              \<and> line_index s' = (line_index s + int k) mod ?N"
    using scrolls_down_index [OF assms, of _ n] by blast
  show ?thesis using c1 c2 c3 c4 c5 c6 by blast
qed

theorem scroll_wraps_at_both_ends_witness:
  "items about_screen \<noteq> [] \<and> 0 \<le> line_index about_screen
   \<and> line_index about_screen < int (length (items about_screen))
   \<and> line_index about_screen = 0
   \<and> line_index about_screen < int (length (items about_screen)) - 1
   \<and> (\<exists>s'. scrolls (replicate (length (items about_screen)) 1) 2 about_screen = Inr s'
          \<and> line_index s' = line_index about_screen)
   \<and> (\<exists>s'. Screen_scroll (-1) 2 about_screen = Inr s'
          \<and> line_index s' = int (length (items about_screen)) - 1)
   \<and> (\<exists>s'. Screen_scroll 1 2 about_screen = Inr s'
          \<and> line_index s' = line_index about_screen + 1)
   \<and> (\<exists>s'. scrolls (replicate 5 1) 2 about_screen = Inr s'
          \<and> line_index s' = (line_index about_screen + int 5)
                mod int (length (items about_screen)))
   \<and> items (about_screen\<lparr>top_line := 1, line_index := 2\<rparr>) \<noteq> []
   \<and> line_index (about_screen\<lparr>top_line := 1, line_index := 2\<rparr>)
       = int (length (items (about_screen\<lparr>top_line := 1, line_index := 2\<rparr>))) - 1
   \<and> 0 < line_index (about_screen\<lparr>top_line := 1, line_index := 2\<rparr>)
   \<and> (\<exists>s'. Screen_scroll 1 2 (about_screen\<lparr>top_line := 1, line_index := 2\<rparr>) = Inr s'
          \<and> line_index s' = 0)
   \<and> (\<exists>s'. Screen_scroll (-1) 2 (about_screen\<lparr>top_line := 1, line_index := 2\<rparr>) = Inr s'
          \<and> line_index s' = line_index (about_screen\<lparr>top_line := 1, line_index := 2\<rparr>) - 1)"
proof -
  let ?b = "about_screen\<lparr>top_line := 1, line_index := 2\<rparr>"
  have h1: "items about_screen \<noteq> []" by (simp add: about_screen_def)
  have h2: "0 \<le> line_index about_screen" by (simp add: about_screen_def)
  have h3: "line_index about_screen < int (length (items about_screen))"
    by (simp add: about_screen_def)
  have h4: "line_index about_screen = 0" by (simp add: about_screen_def)
  have h5: "line_index about_screen < int (length (items about_screen)) - 1"
    by (simp add: about_screen_def)
  have g1: "items ?b \<noteq> []" by (simp add: about_screen_def)
  have g2: "0 \<le> line_index ?b" by simp
  have g3: "line_index ?b < int (length (items ?b))" by (simp add: about_screen_def)
  have g4: "line_index ?b = int (length (items ?b)) - 1" by (simp add: about_screen_def)
  have g5: "0 < line_index ?b" by simp
  note top = scroll_wraps_at_both_ends [OF h1 h2 h3, of 2]
  note bottom = scroll_wraps_at_both_ends [OF g1 g2 g3, of 2]
  have t1: "\<exists>s'. scrolls (replicate (length (items about_screen)) 1) 2 about_screen = Inr s'
          \<and> line_index s' = line_index about_screen"
    using top by blast
  have t2: "\<exists>s'. Screen_scroll (-1) 2 about_screen = Inr s'
          \<and> line_index s' = int (length (items about_screen)) - 1"
    using top h4 by blast
  have t4: "\<exists>s'. Screen_scroll 1 2 about_screen = Inr s'
          \<and> line_index s' = line_index about_screen + 1"
    using top h5 by blast
  have t6: "\<exists>s'. scrolls (replicate 5 1) 2 about_screen = Inr s'
          \<and> line_index s' = (line_index about_screen + int 5)
                mod int (length (items about_screen))"
    using top by blast
  have b3: "\<exists>s'. Screen_scroll 1 2 ?b = Inr s' \<and> line_index s' = 0"
    using bottom g4 by blast
  have b5: "\<exists>s'. Screen_scroll (-1) 2 ?b = Inr s' \<and> line_index s' = line_index ?b - 1"
    using bottom g5 by blast
  show ?thesis
    using h1 h2 h3 h4 h5 g1 g4 g5 t1 t2 t4 t6 b3 b5 by blast
qed

subsection \<open>Construction\<close>

text \<open>
  Claim C10. The constructor accepts the empty list; on the screen it returns, every
  call of \<open>scroll\<close> raises \<open>ZeroDivisionError\<close> and \<open>get_selected_item\<close> raises
  \<open>IndexError\<close>.
\<close>

theorem empty_screen_accepted_then_fails:
  "Screen_init (ListV []) = Inr \<lparr>items = [], top_line = 0, line_index = 0\<rparr>
   \<and> Screen_scroll d n \<lparr>items = [], top_line = 0, line_index = 0\<rparr> = Inl ZeroDivisionError
   \<and> get_selected_item \<lparr>items = [], top_line = 0, line_index = 0\<rparr> = Inl IndexError"
  by (simp add: Screen_scroll_def py_mod_def get_selected_item_def py_index_def)

text \<open>
  Claim C2, as stated: the constructor rejects a list of zero items. It does not: for
  the empty list it returns a screen.
\<close>

theorem Screen_init_empty_not_rejected:
  "\<not> isl (Screen_init (ListV []))"
  by simp

text \<open>
  Claim C2, amended. The constructor checks that its argument is a list and that every
  element is an \<open>Item\<close>, and nothing else: every list of items, the empty one included,
  gives a screen holding these items with \<open>top_line = 0\<close> and \<open>line_index = 0\<close>; a value
  that is not a list, or a list with an element that is not an \<open>Item\<close>, raises
  \<open>TypeError\<close>.
\<close>

theorem Screen_init_accepts_item_lists:
  "Screen_init (ListV (map ItemV its)) = Inr \<lparr>items = its, top_line = 0, line_index = 0\<rparr>
   \<and> Screen_init (ListV []) = Inr \<lparr>items = [], top_line = 0, line_index = 0\<rparr>
   \<and> Screen_init OtherV = Inl TypeError
   \<and> Screen_init (ItemV i) = Inl TypeError
   \<and> Screen_init (ListV (xs @ OtherV # ys)) = Inl TypeError
   \<and> Screen_init (ListV (xs @ ListV zs # ys)) = Inl TypeError"
  by (simp add: list_all_iff comp_def)

subsection \<open>Rendering\<close>

lemma get_visible_text_length:
  "0 \<le> k \<Longrightarrow> length (get_visible_text k item) = nat k"
  by (auto simp: get_visible_text_def py_slice_to_def spaces_def Let_def)

lemma get_visible_text_eq:
  "0 \<le> k \<Longrightarrow> get_visible_text k item =
     take (nat k) (text_of item) @ replicate (nat k - length (text_of item)) CHR '' ''"
  by (auto simp: get_visible_text_def py_slice_to_def spaces_def Let_def min_def nat_diff_distrib')

lemma render_row_item:
  assumes "0 \<le> top_line s + i" and "top_line s + i < int (length (items s))"
  shows "render_row c s i =
           Inr ((if top_line s + i = line_index s then
                   (if on_click (items s ! nat (top_line s + i)) \<noteq> None then CHR ''=''
                    else if is_back_button (items s ! nat (top_line s + i)) then CHR ''<''
                    else CHR ''>'')
                 else CHR '' '')
                # get_visible_text (c - 1) (items s ! nat (top_line s + i)))"
  using assms by (simp add: render_row_def py_index_def Let_def)

lemma render_row_blank:
  assumes "int (length (items s)) \<le> top_line s + i"
  shows "render_row c s i = Inr (spaces c)"
  using assms by (simp add: render_row_def)

lemma render_row_returns:
  assumes "0 \<le> top_line s" and "0 \<le> i"
  shows "\<exists>row. render_row c s i = Inr row"
proof (cases "top_line s + i < int (length (items s))")
  case True
  then show ?thesis using render_row_item [of s i c] assms by simp
next
  case False
  then show ?thesis using render_row_blank [of s i c] by simp
qed

lemma render_loop_returns:
  assumes "\<forall>i \<in> set js. \<exists>row. render_row c s i = Inr row"
  shows "render_loop c s js a = Inr (a @ map (\<lambda>i. projr (render_row c s i)) js)"
  using assms
proof (induction js arbitrary: a)
  case Nil
  then show ?case by simp
next
  case (Cons j js)
  from Cons.prems obtain row where row: "render_row c s j = Inr row" by auto
  have "\<forall>i \<in> set js. \<exists>row. render_row c s i = Inr row" using Cons.prems by simp
  from Cons.IH [OF this, of "a @ [row]"] row show ?case by simp
qed

lemma Screen_render_returns:
  assumes "0 \<le> top_line s"
  shows "Screen_render n c s = Inr (map (\<lambda>i. projr (render_row c s i)) [0 .. n - 1])"
proof -
  have "\<forall>i \<in> set [0 .. n - 1]. \<exists>row. render_row c s i = Inr row"
    using render_row_returns [OF assms] by simp
  from render_loop_returns [OF this, of "[]"] show ?thesis
    by (simp add: Screen_render_def)
qed

lemma Screen_render_nth:
  assumes "0 \<le> top_line s" and "Screen_render n c s = Inr rows" and "k < nat n"
  shows "render_row c s (int k) = Inr (rows ! k)"
proof -
  have rows: "rows = map (\<lambda>i. projr (render_row c s i)) [0 .. n - 1]"
    using Screen_render_returns [OF assms(1), of n c] assms(2) by simp
  have "k < length [0 .. n - 1]" using assms(3) by simp
  then have "rows ! k = projr (render_row c s ([0 .. n - 1] ! k))"
    unfolding rows by (rule nth_map)
  also have "[0 .. n - 1] ! k = int k" using assms(3) by simp
  finally have "rows ! k = projr (render_row c s (int k))" .
  moreover obtain row where "render_row c s (int k) = Inr row"
    using render_row_returns [OF assms(1), of "int k" c] by auto
  ultimately show ?thesis by simp
qed

lemma render_row_shape:
  assumes "1 \<le> c" and "0 \<le> top_line s" and "0 \<le> i" and "render_row c s i = Inr row"
  shows "int (length (tl row)) = c - 1
       \<and> (top_line s + i < int (length (items s)) \<longrightarrow>
            tl row = take (nat (c - 1)) (text_of (items s ! nat (top_line s + i)))
                     @ replicate (nat (c - 1) - length (text_of (items s ! nat (top_line s + i))))
                         CHR '' '')
       \<and> (int (length (items s)) \<le> top_line s + i \<longrightarrow> row = replicate (nat c) CHR '' '')"
proof (cases "top_line s + i < int (length (items s))")
  case True
  have c0: "0 \<le> c - 1" using assms(1) by simp
  have nn: "0 \<le> top_line s + i" using assms(2,3) by simp
  from render_row_item [OF nn True, of c] assms(4)
  have t: "tl row = get_visible_text (c - 1) (items s ! nat (top_line s + i))"
    by auto
  have l: "int (length (tl row)) = c - 1"
    unfolding t using get_visible_text_length [OF c0] c0 by simp
  have e: "tl row = take (nat (c - 1)) (text_of (items s ! nat (top_line s + i)))
                     @ replicate (nat (c - 1) - length (text_of (items s ! nat (top_line s + i))))
                         CHR '' ''"
    unfolding t using get_visible_text_eq [OF c0] .
  show ?thesis using True l e by simp
next
  case False
  then have ge: "int (length (items s)) \<le> top_line s + i" by simp
  from render_row_blank [OF ge, of c] assms(4)
  have r: "row = replicate (nat c) CHR '' ''" by (simp add: spaces_def)
  have "length (tl row) = nat c - 1" unfolding r by simp
  then have l: "int (length (tl row)) = c - 1" using assms(1) by simp
  show ?thesis using False l r by simp
qed

text \<open>
  The window never starts before the first item: the constructor and \<open>reset\<close> set
  \<open>top_line\<close> to 0 and \<open>scroll\<close> keeps it non-negative.
\<close>

lemma Screen_init_top_line: "Screen_init v = Inr s \<Longrightarrow> 0 \<le> top_line s"
  by (cases v) (auto split: if_splits)

lemma Screen_scroll_top_line:
  "Screen_scroll d n s = Inr s' \<Longrightarrow> 0 \<le> top_line s \<Longrightarrow> 0 \<le> top_line s'"
  by (auto simp: Screen_scroll_def py_mod_def Let_def split: if_splits)

lemma reset_top_line: "0 \<le> top_line (reset s)"
  by (simp add: reset_def)

text \<open>
  Claim C8. For a viewport of at least one row and one column, and a screen whose window
  starts at a non-negative index, \<open>render\<close> returns exactly \<open>num_lines\<close> rows; the text
  part of each row (the row without its cursor character) has \<open>num_columns - 1\<close>
  characters; on a row that shows an item it is the item's text cut at that width and
  filled with spaces on the right; a row whose index \<open>top_line + i\<close> is past the last
  item is \<open>num_columns\<close> spaces.
\<close>

theorem render_rows_shape:
  assumes "1 \<le> viewport_rows" and "1 \<le> viewport_columns" and "0 \<le> top_line s"
  shows "\<exists>rows. Screen_render viewport_rows viewport_columns s = Inr rows
           \<and> int (length rows) = viewport_rows
           \<and> (\<forall>i < length rows.
                 int (length (tl (rows ! i))) = viewport_columns - 1
               \<and> (top_line s + int i < int (length (items s)) \<longrightarrow>
                    tl (rows ! i) =
                      take (nat (viewport_columns - 1)) (text_of (items s ! nat (top_line s + int i)))
                      @ replicate (nat (viewport_columns - 1)
                                   - length (text_of (items s ! nat (top_line s + int i)))) CHR '' '')
               \<and> (int (length (items s)) \<le> top_line s + int i \<longrightarrow>
                    rows ! i = replicate (nat viewport_columns) CHR '' ''))"
proof -
  obtain rows where r: "Screen_render viewport_rows viewport_columns s = Inr rows"
    and len: "length rows = nat viewport_rows"
    using Screen_render_returns [OF assms(3), of viewport_rows viewport_columns] by simp
  have len': "int (length rows) = viewport_rows" using len assms(1) by simp
  have each: "int (length (tl (rows ! i))) = viewport_columns - 1
               \<and> (top_line s + int i < int (length (items s)) \<longrightarrow>
                    tl (rows ! i) =
                      take (nat (viewport_columns - 1)) (text_of (items s ! nat (top_line s + int i)))
                      @ replicate (nat (viewport_columns - 1)
                                   - length (text_of (items s ! nat (top_line s + int i)))) CHR '' '')
               \<and> (int (length (items s)) \<le> top_line s + int i \<longrightarrow>
                    rows ! i = replicate (nat viewport_columns) CHR '' '')"
    if i: "i < length rows" for i
  proof -
    have k: "i < nat viewport_rows" using i len by simp
    have row: "render_row viewport_columns s (int i) = Inr (rows ! i)"
      using Screen_render_nth [OF assms(3) r k] .
    show ?thesis
      using render_row_shape [OF assms(2,3) _ row] by simp
  qed
  show ?thesis using r len' each by blast
qed

theorem render_rows_shape_witness:
  "(1::int) \<le> 2 \<and> (1::int) \<le> 16 \<and> 0 \<le> top_line (about_screen\<lparr>top_line := 2, line_index := 2\<rparr>)
   \<and> (\<exists>rows. Screen_render 2 16 (about_screen\<lparr>top_line := 2, line_index := 2\<rparr>) = Inr rows
         \<and> int (length rows) = 2
         \<and> int (length (tl (rows ! 0))) = 15 \<and> int (length (tl (rows ! 1))) = 15
         \<and> tl (rows ! 0) = ''Tiny1602Menu   ''
         \<and> rows ! 1 = ''                '')"
proof -
  let ?s = "about_screen\<lparr>top_line := 2, line_index := 2\<rparr>"
  have h1: "(1::int) \<le> 2" by simp
  have h2: "(1::int) \<le> 16" by simp
  have h3: "0 \<le> top_line ?s" by simp
  from render_rows_shape [OF h1 h2 h3]
  obtain rows where r: "Screen_render 2 16 ?s = Inr rows" and len: "int (length rows) = 2"
    and each: "\<forall>i < length rows.
                 int (length (tl (rows ! i))) = 16 - 1
               \<and> (top_line ?s + int i < int (length (items ?s)) \<longrightarrow>
                    tl (rows ! i) =
                      take (nat (16 - 1)) (text_of (items ?s ! nat (top_line ?s + int i)))
                      @ replicate (nat (16 - 1)
                                   - length (text_of (items ?s ! nat (top_line ?s + int i)))) CHR '' '')
               \<and> (int (length (items ?s)) \<le> top_line ?s + int i \<longrightarrow>
                    rows ! i = replicate (nat 16) CHR '' '')"
    by blast
  have l2: "length rows = 2" using len by simp
  have e0: "int (length (tl (rows ! 0))) = 15 \<and> tl (rows ! 0) = ''Tiny1602Menu   ''"
    using each [rule_format, of 0] l2
    by (simp add: about_screen_def Item_init_def eval_nat_numeral)
  have e1: "int (length (tl (rows ! 1))) = 15 \<and> rows ! 1 = ''                ''"
    using each [rule_format, of 1] l2
    by (simp add: about_screen_def Item_init_def eval_nat_numeral)
  show ?thesis using h3 r len e0 e1 by auto
qed

text \<open>
  Claim C4, as stated: the row of a selected item that is both a back button and
  clickable starts with the back glyph \<open><\<close>. It starts with \<open>=\<close>, the glyph of a
  clickable item.
\<close>

theorem back_action_glyph_is_not_back:
  "is_back_button (items back_action_screen ! 0)
   \<and> on_click (items back_action_screen ! 0) \<noteq> None
   \<and> line_index back_action_screen = 0
   \<and> Screen_render 2 5 back_action_screen = Inr [''=Back'', ''     '']"
  by (simp add: back_action_screen_def Item_init_def Screen_render_def upto.simps
      render_row_def py_index_def get_visible_text_def py_slice_to_def spaces_def
      eval_nat_numeral)

text \<open>
  Claim C4, amended. In a rendered row whose item is selected, back-marked and
  clickable, the cursor character is \<open>=\<close>, the glyph of a clickable item: \<open>render\<close>
  tests \<open>callable(item.on_click)\<close> before \<open>item.is_back_button\<close>.
\<close>

theorem selected_back_action_row_glyph:
  assumes "0 \<le> top_line s" and "i < nat viewport_rows"
    and "top_line s + int i = line_index s"
    and "line_index s < int (length (items s))"
    and "is_back_button (items s ! nat (line_index s))"
    and "on_click (items s ! nat (line_index s)) \<noteq> None"
  shows "\<exists>rows. Screen_render viewport_rows viewport_columns s = Inr rows
           \<and> hd (rows ! i) = CHR ''=''"
proof -
  obtain rows where r: "Screen_render viewport_rows viewport_columns s = Inr rows"
    using Screen_render_returns [OF assms(1), of viewport_rows viewport_columns] by simp
  have row: "render_row viewport_columns s (int i) = Inr (rows ! i)"
    using Screen_render_nth [OF assms(1) r assms(2)] .
  have nn: "0 \<le> top_line s + int i" using assms(1) by simp
  have lt: "top_line s + int i < int (length (items s))" using assms(3,4) by simp
  from render_row_item [OF nn lt, of viewport_columns] row assms(3,6)
  have "hd (rows ! i) = CHR ''=''" by auto
  then show ?thesis using r by blast
qed

theorem selected_back_action_row_glyph_witness:
  "0 \<le> top_line back_action_screen \<and> (0::nat) < nat 2
   \<and> top_line back_action_screen + int 0 = line_index back_action_screen
   \<and> line_index back_action_screen < int (length (items back_action_screen))
   \<and> is_back_button (items back_action_screen ! nat (line_index back_action_screen))
   \<and> on_click (items back_action_screen ! nat (line_index back_action_screen)) \<noteq> None
   \<and> (\<exists>rows. Screen_render 2 5 back_action_screen = Inr rows \<and> hd (rows ! 0) = CHR ''='')"
proof -
  have h1: "0 \<le> top_line back_action_screen" by (simp add: back_action_screen_def)
  have h2: "(0::nat) < nat 2" by simp
  have h3: "top_line back_action_screen + int 0 = line_index back_action_screen"
    by (simp add: back_action_screen_def)
  have h4: "line_index back_action_screen < int (length (items back_action_screen))"
    by (simp add: back_action_screen_def)
  have h5: "is_back_button (items back_action_screen ! nat (line_index back_action_screen))"
    by (simp add: back_action_screen_def Item_init_def)
  have h6: "on_click (items back_action_screen ! nat (line_index back_action_screen)) \<noteq> None"
    by (simp add: back_action_screen_def Item_init_def)
  show ?thesis
    using h1 h2 h3 h4 h5 h6 selected_back_action_row_glyph [OF h1 h2 h3 h4 h5 h6, of 5]
    by blast
qed

section \<open>Properties of the navigator\<close>

text \<open>\<open>render\<close> only talks to the display: whether it returns or raises, every
  field but \<open>lcd\<close> is as before.\<close>

lemma render_lines_frame:
  "heap (state_of (render_lines y ls self)) = heap self
   \<and> screen_stack (state_of (render_lines y ls self)) = screen_stack self
   \<and> screens (state_of (render_lines y ls self)) = screens self
   \<and> auto_render (state_of (render_lines y ls self)) = auto_render self
   \<and> num_lines (state_of (render_lines y ls self)) = num_lines self
   \<and> num_columns (state_of (render_lines y ls self)) = num_columns self
   \<and> screen_root_path (state_of (render_lines y ls self)) = screen_root_path self"
proof (induction ls arbitrary: y self)
  case Nil
  then show ?case by simp
next
  case (Cons l ls)
  show ?case
  proof (cases l)
    case Nil
    then show ?thesis by simp
  next
    case (Cons c cs)
    then show ?thesis using Cons.IH by (simp add: Let_def)
  qed
qed

lemma render_frame:
  "heap (state_of (render self)) = heap self
   \<and> screen_stack (state_of (render self)) = screen_stack self
   \<and> screens (state_of (render self)) = screens self
   \<and> auto_render (state_of (render self)) = auto_render self
   \<and> num_lines (state_of (render self)) = num_lines self
   \<and> num_columns (state_of (render self)) = num_columns self
   \<and> screen_root_path (state_of (render self)) = screen_root_path self"
  using render_lines_frame [of 0 _ self]
  by (simp add: render_def split: sum.splits)

text \<open>
  Claim C9. \<open>open_screen\<close> with a path that is not in the registry returns without
  raising and leaves the whole state as it was: the stack, every screen, the display.
\<close>

theorem open_unknown_path_noop:
  assumes "path \<notin> dom (screens self)"
  shows "open_screen path self = Returns self"
  using assms by (simp add: open_screen_def domIff)

theorem open_unknown_path_noop_witness:
  "''/unregistered'' \<notin> dom (screens example_tb)
   \<and> open_screen ''/unregistered'' example_tb = Returns example_tb"
proof -
  have h: "''/unregistered'' \<notin> dom (screens example_tb)"
    by (simp add: example_tb_def add_screen_def TinyBlue_init_def Let_def)
  show ?thesis using h open_unknown_path_noop [OF h] by blast
qed

text \<open>
  Claim C5, as stated: with an empty stack each of \<open>scroll\<close>, \<open>select\<close>, \<open>back\<close> and
  \<open>render\<close> raises. \<open>back\<close> does not: on the navigator as constructed it returns and
  changes nothing.
\<close>

theorem back_on_empty_stack_is_silent:
  "screen_stack (TinyBlue_init [] 2 16 example_heap) = []
   \<and> TinyBlue_back (TinyBlue_init [] 2 16 example_heap)
       = Returns (TinyBlue_init [] 2 16 example_heap)"
  by (simp add: TinyBlue_init_def TinyBlue_back_def)

text \<open>
  Claim C5, amended. With an empty stack, \<open>scroll\<close>, \<open>select\<close> and \<open>render\<close> raise
  \<open>TypeError\<close> (from \<open>top_screen\<close>) and leave the state as it was; \<open>back\<close> returns
  without raising and without changing anything.
\<close>

theorem primitives_on_empty_stack:
  assumes "screen_stack self = []"
  shows "scroll direction self = Raises TypeError self
       \<and> select env self = Raises TypeError self
       \<and> render self = Raises TypeError self
       \<and> TinyBlue_back self = Returns self"
  using assms
  by (simp add: scroll_def select_def render_def TinyBlue_back_def top_screen_def)

theorem primitives_on_empty_stack_witness:
  "screen_stack (TinyBlue_init [] 2 16 example_heap) = []
   \<and> scroll 1 (TinyBlue_init [] 2 16 example_heap)
       = Raises TypeError (TinyBlue_init [] 2 16 example_heap)
   \<and> select example_env (TinyBlue_init [] 2 16 example_heap)
       = Raises TypeError (TinyBlue_init [] 2 16 example_heap)
   \<and> render (TinyBlue_init [] 2 16 example_heap)
       = Raises TypeError (TinyBlue_init [] 2 16 example_heap)
   \<and> TinyBlue_back (TinyBlue_init [] 2 16 example_heap)
       = Returns (TinyBlue_init [] 2 16 example_heap)"
proof -
  have h: "screen_stack (TinyBlue_init [] 2 16 example_heap) = []"
    by (simp add: TinyBlue_init_def)
  show ?thesis using h primitives_on_empty_stack [OF h] by blast
qed

text \<open>
  Claim C6. With more than one screen on the stack, \<open>back\<close> leaves a state (whether
  its final \<open>render\<close> returns or raises) in which the stack is the old one without its
  top, so one shorter, and the store differs only at the screen that was on top, whose
  \<open>top_line\<close> and \<open>line_index\<close> are 0. With exactly one screen on the stack, \<open>back\<close>
  returns the state unchanged.
\<close>

theorem back_pops_or_noop:
  "(1 < length (screen_stack self) \<longrightarrow>
      screen_stack (state_of (TinyBlue_back self)) = butlast (screen_stack self)
    \<and> Suc (length (screen_stack (state_of (TinyBlue_back self)))) = length (screen_stack self)
    \<and> heap (state_of (TinyBlue_back self))
        = (heap self)(last (screen_stack self) :=
             (heap self (last (screen_stack self)))\<lparr>top_line := 0, line_index := 0\<rparr>))
   \<and> (length (screen_stack self) = 1 \<longrightarrow> TinyBlue_back self = Returns self)"
proof (intro conjI impI)
  assume d: "1 < length (screen_stack self)"
  let ?r = "last (screen_stack self)"
  let ?self2 = "self\<lparr>heap := (heap self)(?r := reset (heap self ?r)),
                     screen_stack := butlast (screen_stack self)\<rparr>"
  have ne: "screen_stack self \<noteq> []" using d by auto
  have top: "top_screen self = Inr ?r"
    using ne by (simp add: top_screen_def last_conv_nth)
  have st: "state_of (TinyBlue_back self)
              = (if auto_render self then state_of (render ?self2) else ?self2)"
    using d top by (simp add: TinyBlue_back_def Let_def)
  show "screen_stack (state_of (TinyBlue_back self)) = butlast (screen_stack self)"
    unfolding st using render_frame [of ?self2] by simp
  then show "Suc (length (screen_stack (state_of (TinyBlue_back self))))
               = length (screen_stack self)"
    using ne by simp
  show "heap (state_of (TinyBlue_back self))
        = (heap self)(?r := (heap self ?r)\<lparr>top_line := 0, line_index := 0\<rparr>)"
    unfolding st using render_frame [of ?self2] by (simp add: reset_def)
next
  assume "length (screen_stack self) = 1"
  then show "TinyBlue_back self = Returns self" by (simp add: TinyBlue_back_def)
qed

theorem back_pops_or_noop_witness:
  "1 < length (screen_stack led_tb)
   \<and> screen_stack (state_of (TinyBlue_back led_tb)) = butlast (screen_stack led_tb)
   \<and> Suc (length (screen_stack (state_of (TinyBlue_back led_tb)))) = length (screen_stack led_tb)
   \<and> heap (state_of (TinyBlue_back led_tb))
        = (heap led_tb)(last (screen_stack led_tb) :=
             (heap led_tb (last (screen_stack led_tb)))\<lparr>top_line := 0, line_index := 0\<rparr>)
   \<and> length (screen_stack about_tb) = 1
   \<and> TinyBlue_back about_tb = Returns about_tb"
proof -
  have h1: "1 < length (screen_stack led_tb)" by (simp add: about_tb_def led_tb_def example_defs)
  have h2: "length (screen_stack about_tb) = 1" by (simp add: about_tb_def led_tb_def example_defs)
  show ?thesis
    using h1 h2 back_pops_or_noop [of led_tb] back_pops_or_noop [of about_tb] by blast
qed

text \<open>
  Claim C3, as stated: with auto-render on, \<open>select\<close> on a back item renders, also at
  stack depth 1. On a navigator whose root screen has its back item selected, \<open>select\<close>
  returns the state unchanged, with no call made on the display, where a \<open>render\<close>
  would have made some.
\<close>

theorem select_back_at_root_renders_nothing:
  "auto_render about_tb
   \<and> top_screen about_tb = Inr 2
   \<and> get_selected_item (heap about_tb 2) = Inr (Item_init ''Back'' None True)
   \<and> is_back_button (Item_init ''Back'' None True)
   \<and> length (screen_stack about_tb) = 1
   \<and> select example_env about_tb = Returns about_tb
   \<and> lcd (state_of (select example_env about_tb)) = lcd about_tb
   \<and> lcd (state_of (render about_tb)) \<noteq> lcd about_tb"
  by (simp add: about_tb_def example_defs top_screen_def get_selected_item_def py_index_def
      select_def TinyBlue_back_def render_def Screen_render_def upto.simps render_row_def
      get_visible_text_def py_slice_to_def spaces_def Let_def)

text \<open>
  Claim C3, amended. When the selected item of the top screen is a back item and the
  stack holds more than one screen, \<open>select\<close> with auto-render on is the \<open>render\<close> of the
  state in which the top screen is reset and popped; when it is a back item and the
  stack holds one screen, \<open>select\<close> returns the state unchanged, without rendering; when
  it is not a back item and has an action that returns, leaving auto-render on,
  \<open>select\<close> is the \<open>render\<close> of the state the action left.
\<close>

theorem select_renders_after_branch:
  assumes "top_screen self = Inr r" and "get_selected_item (heap self r) = Inr item"
  shows "(is_back_button item \<and> 1 < length (screen_stack self) \<and> auto_render self \<longrightarrow>
            select env self =
              render (self\<lparr>heap := (heap self)(r := reset (heap self r)),
                           screen_stack := butlast (screen_stack self)\<rparr>))
       \<and> (is_back_button item \<and> length (screen_stack self) = 1 \<longrightarrow>
            select env self = Returns self)
       \<and> (\<not> is_back_button item \<and> on_click item = Some h \<and> env h self = Returns after
            \<and> auto_render after \<longrightarrow>
            select env self = render after)"
  using assms
  by (simp add: select_def TinyBlue_back_def Let_def)

theorem select_renders_after_branch_witness:
  "top_screen nested_tb = Inr 2
   \<and> get_selected_item (heap nested_tb 2) = Inr (Item_init ''Back'' None True)
   \<and> is_back_button (Item_init ''Back'' None True)
   \<and> 1 < length (screen_stack nested_tb) \<and> auto_render nested_tb
   \<and> select example_env nested_tb =
       render (nested_tb\<lparr>heap := (heap nested_tb)(2 := reset (heap nested_tb 2)),
                         screen_stack := butlast (screen_stack nested_tb)\<rparr>)
   \<and> top_screen about_tb = Inr 2
   \<and> get_selected_item (heap about_tb 2) = Inr (Item_init ''Back'' None True)
   \<and> length (screen_stack about_tb) = 1
   \<and> select example_env about_tb = Returns about_tb
   \<and> top_screen led_tb = Inr 1
   \<and> get_selected_item (heap led_tb 1) = Inr (Item_init ''Toggle'' (Some 0) False)
   \<and> \<not> is_back_button (Item_init ''Toggle'' (Some 0) False)
   \<and> on_click (Item_init ''Toggle'' (Some 0) False) = Some 0
   \<and> example_env 0 led_tb = Returns (state_of (example_env 0 led_tb))
   \<and> auto_render (state_of (example_env 0 led_tb))
   \<and> select example_env led_tb = render (state_of (example_env 0 led_tb))"
proof -
  have a1: "top_screen nested_tb = Inr 2"
    by (simp add: about_tb_def nested_tb_def led_tb_def example_defs top_screen_def)
  have a2: "get_selected_item (heap nested_tb 2) = Inr (Item_init ''Back'' None True)"
    by (simp add: about_tb_def nested_tb_def led_tb_def example_defs get_selected_item_def py_index_def)
  have a3: "is_back_button (Item_init ''Back'' None True)
            \<and> 1 < length (screen_stack nested_tb) \<and> auto_render nested_tb"
    by (simp add: about_tb_def nested_tb_def led_tb_def example_defs)
  have b1: "top_screen about_tb = Inr 2"
    by (simp add: about_tb_def nested_tb_def led_tb_def example_defs top_screen_def)
  have b2: "get_selected_item (heap about_tb 2) = Inr (Item_init ''Back'' None True)"
    by (simp add: about_tb_def nested_tb_def led_tb_def example_defs get_selected_item_def py_index_def)
  have b3: "length (screen_stack about_tb) = 1"
    by (simp add: about_tb_def nested_tb_def led_tb_def example_defs)
  have c1: "top_screen led_tb = Inr 1"
    by (simp add: about_tb_def nested_tb_def led_tb_def example_defs top_screen_def)
  have c2: "get_selected_item (heap led_tb 1) = Inr (Item_init ''Toggle'' (Some 0) False)"
    by (simp add: about_tb_def nested_tb_def led_tb_def example_defs get_selected_item_def py_index_def)
  have c3: "\<not> is_back_button (Item_init ''Toggle'' (Some 0) False)
            \<and> on_click (Item_init ''Toggle'' (Some 0) False) = Some 0"
    by (simp add: Item_init_def)
  have c4: "example_env 0 led_tb = Returns (state_of (example_env 0 led_tb))"
    by (simp add: example_env_def)
  have c5: "auto_render (state_of (example_env 0 led_tb))"
    by (simp add: example_env_def about_tb_def nested_tb_def led_tb_def example_defs)
  show ?thesis
    using a1 a2 a3 b1 b2 b3 c1 c2 c3 c4 c5
      select_renders_after_branch [OF a1 a2, where env = example_env]
      select_renders_after_branch [OF b1 b2, where env = example_env]
      select_renders_after_branch [OF c1 c2, where env = example_env and h = 0
        and after = "state_of (example_env 0 led_tb)"]
    by blast
qed

end
